theory Spec2Isabelle
  imports Complex_Main "HOL-Library.Sublist"
begin

section \<open>Python values, strings and dictionaries\<close>

text \<open>
  The records handled by the analyzer are Python dictionaries decoded from JSON, with
  string keys.  A dictionary is a map from keys to values; the values that occur are
  \<^verbatim>\<open>None\<close>, integers, strings and (for dates handed over already parsed) datetime objects.
  A datetime is its wall-clock reading in microseconds from a fixed origin together with
  an optional time zone (the UTC offset in minutes); \<^verbatim>\<open>replace(tzinfo=None)\<close> drops the zone
  and keeps the reading.
\<close>

record py_datetime =
  wall :: int
  tzinfo :: "int option"

datatype pyval = PNone | PInt int | PStr string | PDatetime py_datetime

type_synonym pydict = "string \<rightharpoonup> pyval"

datatype py_error =
  AttributeError | ValueError | TypeError | KeyError | IndexError
  | ClientError | ContentTypeError | TimeoutError | CancelledError

text \<open>
  \<^verbatim>\<open>except Exception\<close> catches the instances of \<^verbatim>\<open>Exception\<close>.  A cancellation is not one:
  \<^verbatim>\<open>asyncio.CancelledError\<close> derives from \<^verbatim>\<open>BaseException\<close>.
\<close>

fun is_Exception :: "py_error \<Rightarrow> bool" where
  "is_Exception CancelledError = False"
| "is_Exception e = True"

text \<open>Truthiness, as tested by \<^verbatim>\<open>if x\<close>.\<close>

fun truthy :: "pyval \<Rightarrow> bool" where
  "truthy PNone = False"
| "truthy (PInt i) = (i \<noteq> 0)"
| "truthy (PStr s) = (s \<noteq> [])"
| "truthy (PDatetime d) = True"

text \<open>The operator \<^verbatim>\<open>not\<close> on a value.\<close>

definition py_not :: "pyval \<Rightarrow> bool" where
  "py_not v = (\<not> truthy v)"

text \<open>\<^verbatim>\<open>d.get(k)\<close> and \<^verbatim>\<open>d.get(k, default)\<close>.\<close>

definition dict_get :: "pydict \<Rightarrow> string \<Rightarrow> pyval" where
  "dict_get d k = (case d k of None \<Rightarrow> PNone | Some v \<Rightarrow> v)"

definition dict_get_default :: "pydict \<Rightarrow> string \<Rightarrow> pyval \<Rightarrow> pyval" where
  "dict_get_default d k dflt = (case d k of None \<Rightarrow> dflt | Some v \<Rightarrow> v)"

text \<open>
  \<^verbatim>\<open>str.lower\<close> and \<^verbatim>\<open>str.upper\<close>, on ASCII: the letters A to Z and a to z are exchanged,
  every other character is kept.  Strings are lists of 8-bit characters here, and this
  is Python's case mapping on ASCII strings only (the platform's user names are ASCII
  letters, digits and the underscore): what depends on the case mapping of whole names
  is stated for ASCII names.
\<close>

definition ascii_uppercase :: string where
  "ascii_uppercase = ''ABCDEFGHIJKLMNOPQRSTUVWXYZ''"

definition ascii_lowercase :: string where
  "ascii_lowercase = ''abcdefghijklmnopqrstuvwxyz''"

definition lower_char :: "char \<Rightarrow> char" where
  "lower_char c = (case map_of (zip ascii_uppercase ascii_lowercase) c of Some d \<Rightarrow> d | None \<Rightarrow> c)"

definition upper_char :: "char \<Rightarrow> char" where
  "upper_char c = (case map_of (zip ascii_lowercase ascii_uppercase) c of Some d \<Rightarrow> d | None \<Rightarrow> c)"

definition lower :: "string \<Rightarrow> string" where
  "lower s = map lower_char s"

definition upper :: "string \<Rightarrow> string" where
  "upper s = map upper_char s"

text \<open>\<^verbatim>\<open>v.lower()\<close> on a dictionary value: only a string has the method.\<close>

fun val_lower :: "pyval \<Rightarrow> py_error + string" where
  "val_lower (PStr s) = Inr (lower s)"
| "val_lower v = Inl AttributeError"


section \<open>The analyzer object (threat\_analyzer.py, ThreatAnalyzer.\_\_init\_\_)\<close>

text \<open>
  The module imports the configuration dictionary \<^verbatim>\<open>ROBLOX_CONFIG\<close> of config.py; its
  analysis settings are modelled by the record below, with the defaults config.py gives
  them.  The constructor is written with the configuration in scope, as the Python
  constructor has the module global in scope; it builds the token list and the badge
  watch list from literals.  Methods that do not read \<^verbatim>\<open>self\<close> are modelled without it.
\<close>

record roblox_config =
  MIN_BADGE_COUNT :: int
  ACCOUNT_AGE_THRESHOLD_DAYS :: int
  SUSPICIOUS_PATTERNS :: "string list"
  SUSPICIOUS_BADGE_IDS :: "int list"
  LOW_THRESHOLD :: int
  MEDIUM_THRESHOLD :: int

definition default_config :: roblox_config where
  "default_config =
     \<lparr>MIN_BADGE_COUNT = 40,
      ACCOUNT_AGE_THRESHOLD_DAYS = 120,
      SUSPICIOUS_PATTERNS = [''xyris'', ''vqs'', ''risen'', ''sc'', ''dt'', ''xraid''],
      SUSPICIOUS_BADGE_IDS = [3057416426456972, 3114670201603542, 3006399776257311,
        268490457371003, 341084106898320, 2724124286915993],
      LOW_THRESHOLD = 40,
      MEDIUM_THRESHOLD = 70\<rparr>"

record threat_analyzer =
  suspicious_patterns :: "string list"
  specific_badge_ids :: "int \<rightharpoonup> string"

definition ThreatAnalyzer :: "roblox_config \<Rightarrow> threat_analyzer" where
  "ThreatAnalyzer cfg =
     \<lparr>suspicious_patterns = [''xyris'', ''vqs'', ''risen'', ''sc'', ''dt'', ''xraid''],
      specific_badge_ids =
        [3057416426456972 \<mapsto> ''Baby Steps'',
         3114670201603542 \<mapsto> ''Head First'',
         3006399776257311 \<mapsto> ''A Natural'',
         268490457371003 \<mapsto> ''Turning Point'',
         341084106898320 \<mapsto> ''Seasoned Killer'',
         2724124286915993 \<mapsto> ''Skull Seeker'']\<rparr>"

section \<open>Suspicious-name match (check\_suspicious\_names)\<close>

text \<open>
  The inner loop over the token list, with its \<^verbatim>\<open>break\<close>: the first token that is a
  substring (\<^verbatim>\<open>in\<close>) of the lowercased user name or display name.
\<close>

fun first_pattern :: "string list \<Rightarrow> string \<Rightarrow> string \<Rightarrow> string option" where
  "first_pattern [] username display_name = None"
| "first_pattern (pattern # ps) username display_name =
     (if sublist pattern username \<or> sublist pattern display_name then Some pattern
      else first_pattern ps username display_name)"

text \<open>
  The outer loop; \<open>suspicious_users\<close> is the list built so far.  A \<^verbatim>\<open>name\<close> or
  \<^verbatim>\<open>displayName\<close> that is present and not a string makes \<^verbatim>\<open>.lower()\<close> raise.
\<close>

fun suspicious_names_loop ::
  "threat_analyzer \<Rightarrow> pydict list \<Rightarrow> pydict list \<Rightarrow> py_error + pydict list" where
  "suspicious_names_loop self [] suspicious_users = Inr suspicious_users"
| "suspicious_names_loop self (user # users) suspicious_users =
     (case val_lower (dict_get_default user ''name'' (PStr [])) of
        Inl e \<Rightarrow> Inl e
      | Inr username \<Rightarrow>
         (case val_lower (dict_get_default user ''displayName'' (PStr [])) of
            Inl e \<Rightarrow> Inl e
          | Inr display_name \<Rightarrow>
             (case first_pattern (suspicious_patterns self) username display_name of
                None \<Rightarrow> suspicious_names_loop self users suspicious_users
              | Some pattern \<Rightarrow>
                  suspicious_names_loop self users
                    (suspicious_users @ [user(''matched_pattern'' \<mapsto> PStr (upper pattern))]))))"

definition check_suspicious_names :: "threat_analyzer \<Rightarrow> pydict list \<Rightarrow> py_error + pydict list" where
  "check_suspicious_names self users_list = suspicious_names_loop self users_list []"

text \<open>
  The specification's wording of the label: the first token, in list order, whose
  lowercase form occurs in the lowercased user name or display name, uppercased.
\<close>

definition str_field :: "pydict \<Rightarrow> string \<Rightarrow> string" where
  "str_field d k = (case d k of Some (PStr s) \<Rightarrow> s | _ \<Rightarrow> [])"

definition spec_matched_pattern :: "string list \<Rightarrow> pydict \<Rightarrow> string option" where
  "spec_matched_pattern tokens user =
     (case filter (\<lambda>t. sublist (lower t) (lower (str_field user ''name''))
                       \<or> sublist (lower t) (lower (str_field user ''displayName''))) tokens of
        [] \<Rightarrow> None
      | t # _ \<Rightarrow> Some (upper t))"

definition spec_tag :: "string list \<Rightarrow> pydict \<Rightarrow> pydict option" where
  "spec_tag tokens user =
     map_option (\<lambda>label. user(''matched_pattern'' \<mapsto> PStr label)) (spec_matched_pattern tokens user)"

text \<open>A relation record is well formed when its two names, where present, are strings.\<close>

definition str_or_absent :: "pydict \<Rightarrow> string \<Rightarrow> bool" where
  "str_or_absent d k = (case d k of None \<Rightarrow> True | Some (PStr s) \<Rightarrow> True | Some _ \<Rightarrow> False)"

definition wf_relation :: "pydict \<Rightarrow> bool" where
  "wf_relation user = (str_or_absent user ''name'' \<and> str_or_absent user ''displayName'')"

text \<open>Three relation records: one containing two tokens, one containing none, one matching by its display name.\<close>

definition sample_relations :: "pydict list" where
  "sample_relations =
     [[''name'' \<mapsto> PStr ''Xyris_SC'', ''displayName'' \<mapsto> PStr ''Bob''],
      [''name'' \<mapsto> PStr ''alice'', ''displayName'' \<mapsto> PStr ''Al''],
      [''name'' \<mapsto> PStr ''carol'', ''displayName'' \<mapsto> PStr ''the RISEN one'']]"


section \<open>Dates (the parsing block shared by the date checks)\<close>

text \<open>
  \<^verbatim>\<open>datetime.fromisoformat\<close> and \<^verbatim>\<open>datetime.strptime(s, '%Y-%m-%d')\<close> belong to the Python
  library, not to the repository; they are parameters of the model.  Each returns the
  parsed datetime, or nothing where the library raises \<^verbatim>\<open>ValueError\<close>.
\<close>

record datetime_lib =
  fromisoformat :: "string \<Rightarrow> py_datetime option"
  strptime_ymd :: "string \<Rightarrow> py_datetime option"

text \<open>\<^verbatim>\<open>s.replace('Z', '+00:00')\<close>.\<close>

definition replace_Z :: "string \<Rightarrow> string" where
  "replace_Z s = concat (map (\<lambda>c. if c = CHR ''Z'' then ''+00:00'' else [c]) s)"

definition timedelta_days :: "int \<Rightarrow> int" where
  "timedelta_days n = n * 86400000000"

text \<open>\<^verbatim>\<open>timedelta.days\<close>: the whole days of a difference of microseconds, rounded down.\<close>

definition days_of :: "int \<Rightarrow> int" where
  "days_of delta = delta div 86400000000"

text \<open>
  The block that turns the argument into a naive datetime (lines 42 to 53, 155 to 164
  and 174 to 183): a string is parsed, anything else is taken as it is, and reading
  \<^verbatim>\<open>.tzinfo\<close> of a value that is not a datetime raises.
\<close>

definition parse_date :: "datetime_lib \<Rightarrow> pyval \<Rightarrow> py_error + py_datetime" where
  "parse_date lib created_date =
     (case (case created_date of
              PStr s \<Rightarrow>
                (if CHR ''T'' \<in> set s
                 then (case fromisoformat lib (replace_Z s) of None \<Rightarrow> Inl ValueError | Some d \<Rightarrow> Inr d)
                 else (case strptime_ymd lib s of None \<Rightarrow> Inl ValueError | Some d \<Rightarrow> Inr d))
            | PDatetime d \<Rightarrow> Inr d
            | PNone \<Rightarrow> Inl AttributeError
            | PInt i \<Rightarrow> Inl AttributeError) of
        Inl e \<Rightarrow> Inl e
      | Inr created_dt \<Rightarrow>
          Inr (if tzinfo created_dt \<noteq> None then created_dt\<lparr>tzinfo := None\<rparr> else created_dt))"

section \<open>Account age, badge count and badge watch list\<close>

text \<open>
  \<open>now\<close> is the wall-clock reading of \<^verbatim>\<open>datetime.now()\<close>.  Every exception of the body is
  caught and answered with \<^verbatim>\<open>False\<close>.
\<close>

definition check_account_age :: "datetime_lib \<Rightarrow> int \<Rightarrow> pyval \<Rightarrow> bool" where
  "check_account_age lib now created_date =
     (case parse_date lib created_date of
        Inl e \<Rightarrow> False
      | Inr created_dt \<Rightarrow>
          (let four_months_ago = now - timedelta_days 120
           in wall created_dt > four_months_ago))"

definition check_badge_count :: "'b list \<Rightarrow> bool" where
  "check_badge_count badges_list = (length badges_list < 40)"

text \<open>
  \<^verbatim>\<open>badge_id in self.specific_badge_ids\<close>: the keys of the watch list are integers, so only
  an integer id can be among them.
\<close>

fun watched :: "threat_analyzer \<Rightarrow> pyval \<Rightarrow> string option" where
  "watched self (PInt i) = specific_badge_ids self i"
| "watched self v = None"

fun check_specific_badges_loop :: "threat_analyzer \<Rightarrow> pydict list \<Rightarrow> pydict list \<Rightarrow> pydict list" where
  "check_specific_badges_loop self [] found_badges = found_badges"
| "check_specific_badges_loop self (badge # badges) found_badges =
     (let badge_id = dict_get badge ''id'' in
      case watched self badge_id of
        None \<Rightarrow> check_specific_badges_loop self badges found_badges
      | Some expected \<Rightarrow>
          check_specific_badges_loop self badges
            (found_badges @
              [[''id'' \<mapsto> badge_id,
                ''name'' \<mapsto> dict_get_default badge ''name'' (PStr expected),
                ''description'' \<mapsto> dict_get_default badge ''description'' (PStr []),
                ''expected_name'' \<mapsto> PStr expected]]))"

definition check_specific_badges :: "threat_analyzer \<Rightarrow> pydict list \<Rightarrow> pydict list" where
  "check_specific_badges self badges_list = check_specific_badges_loop self badges_list []"

text \<open>
  The specification's wording of a watch-list hit: the badge's id is a key of the watch
  list; the hit is the id with the watch list's name for it.
\<close>

definition spec_badge_match :: "threat_analyzer \<Rightarrow> pydict \<Rightarrow> (int \<times> string) option" where
  "spec_badge_match self badge =
     (case badge ''id'' of
        Some (PInt i) \<Rightarrow> (case specific_badge_ids self i of Some n \<Rightarrow> Some (i, n) | None \<Rightarrow> None)
      | _ \<Rightarrow> None)"

text \<open>The watch list of the specification's example, and a badge whose live name differs.\<close>

definition a_natural_analyzer :: threat_analyzer where
  "a_natural_analyzer = \<lparr>suspicious_patterns = [], specific_badge_ids = [1 \<mapsto> ''A Natural'']\<rparr>"

definition renamed_badge :: pydict where
  "renamed_badge = [''id'' \<mapsto> PInt 1, ''name'' \<mapsto> PStr ''Renamed'']"

section \<open>Threat aggregator (threat\_analyzer.py, calculate\_threat\_level)\<close>

text \<open>
  The evidence bundle is the dictionary \<^verbatim>\<open>analysis_results\<close> built by the orchestrator;
  the aggregator reads seven of its keys.  The three relation collections and the badge
  matches are lists (only their lengths are read), the three flags are booleans.

  Python computes the score in binary floating point.  The model computes it in exact
  rational arithmetic; lemma \<open>threat_percentage_grid\<close> below shows that the exact
  percentage is always a multiple of 25/18, so it is never closer than 5/18 to either
  threshold and rounding cannot change the verdict.
\<close>

record ('r, 'b) analysis_results =
  suspicious_friends :: "'r list"
  suspicious_followers :: "'r list"
  suspicious_following :: "'r list"
  account_age_flag :: bool
  badge_count_flag :: bool
  specific_badges_found :: "'b list"
  avatar_flag :: bool

text \<open>The dictionary \<^verbatim>\<open>factors\<close>, in insertion order: name, then (count, max\_count, weight).\<close>

definition factors :: "('r, 'b) analysis_results \<Rightarrow> (string \<times> nat \<times> nat \<times> nat) list" where
  "factors r =
    [(''suspicious_friends'', length (suspicious_friends r), 3, 2),
     (''suspicious_followers'', length (suspicious_followers r), 2, 1),
     (''suspicious_following'', length (suspicious_following r), 2, 1),
     (''account_age_flag'', if account_age_flag r then 1 else 0, 1, 3),
     (''badge_count_flag'', if badge_count_flag r then 1 else 0, 1, 2),
     (''specific_badges_found'', length (specific_badges_found r), 3, 2),
     (''avatar_flag'', if avatar_flag r then 1 else 0, 1, 1)]"

text \<open>The body of the \<^verbatim>\<open>for\<close> loop over the factors; the state is (threat\_score, max\_score).\<close>

fun score_loop :: "(string \<times> nat \<times> nat \<times> nat) list \<Rightarrow> rat \<times> nat \<Rightarrow> rat \<times> nat" where
  "score_loop [] (threat_score, max_score) = (threat_score, max_score)"
| "score_loop ((factor_name, count, max_count, weight) # fs) (threat_score, max_score) =
     (let factor_score = min (of_nat count / of_nat max_count) 1 * of_nat weight
      in score_loop fs (threat_score + factor_score, max_score + weight))"

definition threat_percentage :: "('r, 'b) analysis_results \<Rightarrow> rat" where
  "threat_percentage r =
     (case score_loop (factors r) (0, 0) of (threat_score, max_score) \<Rightarrow>
        if max_score > 0 then (threat_score / of_nat max_score) * 100 else 0)"

definition calculate_threat_level :: "('r, 'b) analysis_results \<Rightarrow> string" where
  "calculate_threat_level r =
     (if threat_percentage r \<ge> 70 then ''High''
      else if threat_percentage r \<ge> 40 then ''Medium''
      else ''Low'')"

text \<open>The two bundles named in the specification's examples.\<close>

definition all_zero_results :: "('r, 'b) analysis_results" where
  "all_zero_results =
     \<lparr>suspicious_friends = [], suspicious_followers = [], suspicious_following = [],
      account_age_flag = False, badge_count_flag = False, specific_badges_found = [],
      avatar_flag = False\<rparr>"

definition age_only_results :: "('r, 'b) analysis_results" where
  "age_only_results = all_zero_results\<lparr>account_age_flag := True\<rparr>"

section \<open>Creation-date clustering (check\_creation\_date\_patterns)\<close>

text \<open>
  The loop over the candidates; \<open>same_period_accounts\<close> is the list built so far.  A
  candidate whose date is missing or empty is skipped, and so is one whose date raises
  while it is parsed (the inner \<^verbatim>\<open>except\<close>).  The difference of two naive datetimes is
  a timedelta, here its microseconds; \<^verbatim>\<open>.days\<close> rounds it down to whole days.
\<close>

fun creation_date_loop ::
  "datetime_lib \<Rightarrow> py_datetime \<Rightarrow> pydict list \<Rightarrow> pydict list \<Rightarrow> pydict list" where
  "creation_date_loop lib user_date [] same_period_accounts = same_period_accounts"
| "creation_date_loop lib user_date (friend_data # rest) same_period_accounts =
     (let friend_created = dict_get friend_data ''created_date'' in
      if py_not friend_created then creation_date_loop lib user_date rest same_period_accounts
      else
        (case parse_date lib friend_created of
           Inl e \<Rightarrow> creation_date_loop lib user_date rest same_period_accounts
         | Inr friend_date \<Rightarrow>
             (let time_diff = abs (days_of (wall user_date - wall friend_date)) in
              if time_diff \<le> 7
              then creation_date_loop lib user_date rest
                     (same_period_accounts @
                       [[''username'' \<mapsto> dict_get friend_data ''name'',
                         ''created_date'' \<mapsto> friend_created,
                         ''days_apart'' \<mapsto> PInt time_diff]])
              else creation_date_loop lib user_date rest same_period_accounts)))"

definition check_creation_date_patterns ::
  "datetime_lib \<Rightarrow> pyval \<Rightarrow> pydict list \<Rightarrow> pydict list" where
  "check_creation_date_patterns lib user_created_date suspicious_friends_data =
     (if py_not user_created_date \<or> suspicious_friends_data = [] then []
      else
        (case parse_date lib user_created_date of
           Inl e \<Rightarrow> []
         | Inr user_date \<Rightarrow> creation_date_loop lib user_date suspicious_friends_data []))"

text \<open>
  Two creation times as the platform reports them, seven days and one hour apart, and
  what \<^verbatim>\<open>fromisoformat\<close> returns for them after the Z has been replaced: readings in
  microseconds from 2024-01-10 00:00:00, in the zone UTC.
\<close>

definition jan10 :: string where
  "jan10 = ''2024-01-10T00:00:00Z''"

definition jan17_1am :: string where
  "jan17_1am = ''2024-01-17T01:00:00Z''"

definition sample_datetime_lib :: datetime_lib where
  "sample_datetime_lib =
     \<lparr>fromisoformat = (\<lambda>s.
        if s = ''2024-01-10T00:00:00+00:00'' then Some \<lparr>wall = 0, tzinfo = Some 0\<rparr>
        else if s = ''2024-01-17T01:00:00+00:00'' then Some \<lparr>wall = 608400000000, tzinfo = Some 0\<rparr>
        else None),
      strptime_ymd = (\<lambda>s. None)\<rparr>"

definition candidate :: "string \<Rightarrow> string \<Rightarrow> pydict" where
  "candidate username created = [''name'' \<mapsto> PStr username, ''created_date'' \<mapsto> PStr created]"

section \<open>Username-generation patterns (check\_username\_generation\_patterns)\<close>

subsection \<open>The regular expression \<^verbatim>\<open>^(.+?)(\d+)$\<close>\<close>

definition is_digit :: "char \<Rightarrow> bool" where
  "is_digit c = (c \<in> set ''0123456789'')"

definition digit_val :: "char \<Rightarrow> nat" where
  "digit_val c = (case map_of (zip ''0123456789'' [0, 1, 2, 3, 4, 5, 6, 7, 8, 9]) c of Some n \<Rightarrow> n | None \<Rightarrow> 0)"

text \<open>\<^verbatim>\<open>int(number)\<close> on a string of digits.\<close>

definition int_of_digits :: "string \<Rightarrow> nat" where
  "int_of_digits ds = foldl (\<lambda>acc c. 10 * acc + digit_val c) 0 ds"

definition newline :: char where
  "newline = CHR 0x0A"

text \<open>
  \<^verbatim>\<open>(\d+)$\<close> at the start of \<open>rest\<close>: one or more digits, then the end of the string or
  the single line feed that ends it.
\<close>

definition digits_to_end :: "string \<Rightarrow> bool" where
  "digits_to_end rest =
     (takeWhile is_digit rest \<noteq> []
      \<and> (dropWhile is_digit rest = [] \<or> dropWhile is_digit rest = [newline]))"

text \<open>
  The reluctant group \<^verbatim>\<open>(.+?)\<close>: \<open>base\<close> is what it has taken so far.  It stops as soon as
  the remainder matches \<^verbatim>\<open>(\d+)$\<close>; otherwise it takes one more character, which must not
  be a line feed.
\<close>

fun reluctant :: "string \<Rightarrow> string \<Rightarrow> (string \<times> string) option" where
  "reluctant base [] = None"
| "reluctant base (c # cs) =
     (if digits_to_end (c # cs) then Some (base, takeWhile is_digit (c # cs))
      else if c = newline then None
      else reluctant (base @ [c]) cs)"

text \<open>\<^verbatim>\<open>re.match\<close> with this expression: the two groups, or nothing.\<close>

fun re_match :: "string \<Rightarrow> (string \<times> string) option" where
  "re_match [] = None"
| "re_match (c # cs) = (if c = newline then None else reluctant [c] cs)"

text \<open>
  Lines 216 to 219 for one name: the two groups of a match of the lowercased name, the
  second read by \<^verbatim>\<open>int\<close>.
\<close>

definition regex_split :: "string \<Rightarrow> (string \<times> nat) option" where
  "regex_split username =
     map_option (\<lambda>(base_name, number). (base_name, int_of_digits number)) (re_match (lower username))"

subsection \<open>Sequential numbering\<close>

text \<open>
  A \<^verbatim>\<open>defaultdict(list)\<close> as the list of its items in insertion order;
  \<^verbatim>\<open>d[k].append(v)\<close> extends the list of an existing key and adds a new key at the end.
\<close>

fun dict_append :: "('k \<times> 'v list) list \<Rightarrow> 'k \<Rightarrow> 'v \<Rightarrow> ('k \<times> 'v list) list" where
  "dict_append [] k v = [(k, [v])]"
| "dict_append ((k', vs) # d) k v =
     (if k' = k then (k', vs @ [v]) # d else (k', vs) # dict_append d k v)"

fun number_base_loop ::
  "string list \<Rightarrow> (string \<times> (string \<times> nat) list) list \<Rightarrow> (string \<times> (string \<times> nat) list) list" where
  "number_base_loop [] number_base_groups = number_base_groups"
| "number_base_loop (username # rest) number_base_groups =
     (case re_match (lower username) of
        None \<Rightarrow> number_base_loop rest number_base_groups
      | Some (base_name, number) \<Rightarrow>
          number_base_loop rest
            (dict_append number_base_groups base_name (username, int_of_digits number)))"

definition number_base_groups :: "string list \<Rightarrow> (string \<times> (string \<times> nat) list) list" where
  "number_base_groups usernames = number_base_loop usernames []"





subsection \<open>Common prefix and suffix\<close>





subsection \<open>Character-substitution similarity (\_check\_character\_substitution\_similarity)\<close>

text \<open>
  A dictionary literal is built item by item, left to right: \<^verbatim>\<open>d[k] = v\<close> replaces the
  value of a key that is already there (the key keeps its place) and adds a new key at
  the end.  The literal of the source names the key \<^verbatim>\<open>'1'\<close> twice.
\<close>

fun dict_setitem :: "('k \<times> 'v) list \<Rightarrow> 'k \<Rightarrow> 'v \<Rightarrow> ('k \<times> 'v) list" where
  "dict_setitem [] k v = [(k, v)]"
| "dict_setitem ((k', v') # d) k v =
     (if k' = k then (k', v) # d else (k', v') # dict_setitem d k v)"

definition dict_literal :: "('k \<times> 'v) list \<Rightarrow> ('k \<times> 'v) list" where
  "dict_literal items = foldl (\<lambda>d (k, v). dict_setitem d k v) [] items"

definition substitutions :: "(char \<times> char) list" where
  "substitutions =
     dict_literal
       [(CHR ''0'', CHR ''o''), (CHR ''1'', CHR ''i''), (CHR ''1'', CHR ''l''),
        (CHR ''3'', CHR ''e''), (CHR ''4'', CHR ''a''), (CHR ''5'', CHR ''s''),
        (CHR ''7'', CHR ''t''), (CHR ''8'', CHR ''b''), (CHR ''@'', CHR ''a'')]"

text \<open>\<^verbatim>\<open>s.replace(num, char)\<close> for one-character strings: every occurrence is replaced.\<close>

definition str_replace :: "char \<Rightarrow> char \<Rightarrow> string \<Rightarrow> string" where
  "str_replace num char s = map (\<lambda>c. if c = num then char else c) s"

definition normalize_username :: "string \<Rightarrow> string" where
  "normalize_username username =
     foldl (\<lambda>normalized (num, char). str_replace num char normalized) username substitutions"

text \<open>
  The result is \<^verbatim>\<open>matches / max_len\<close>.  Python returns the double nearest to this quotient;
  the model keeps the quotient itself.
\<close>

definition check_character_substitution_similarity :: "string \<Rightarrow> string \<Rightarrow> rat" where
  "check_character_substitution_similarity username1 username2 =
     (let norm1 = normalize_username username1;
          norm2 = normalize_username username2 in
      if length norm1 = 0 \<or> length norm2 = 0 then 0
      else
        (let matches = length (filter (\<lambda>(a, b). a = b) (zip norm1 norm2));
             max_len = max (length norm1) (length norm2) in
         if max_len > 0 then of_nat matches / of_nat max_len else 0))"

text \<open>
  The specification's wording of the normalization: one simultaneous replacement, in
  which the digit 1 stands for the letter l.
\<close>

definition spec_substitute :: "char \<Rightarrow> char" where
  "spec_substitute c =
     (if c = CHR ''0'' then CHR ''o'' else if c = CHR ''1'' then CHR ''l''
      else if c = CHR ''3'' then CHR ''e'' else if c = CHR ''4'' then CHR ''a''
      else if c = CHR ''5'' then CHR ''s'' else if c = CHR ''7'' then CHR ''t''
      else if c = CHR ''8'' then CHR ''b'' else if c = CHR ''@'' then CHR ''a'' else c)"

definition spec_similarity :: "string \<Rightarrow> string \<Rightarrow> rat" where
  "spec_similarity username1 username2 =
     (let norm1 = map spec_substitute username1;
          norm2 = map spec_substitute username2 in
      if norm1 = [] \<or> norm2 = [] then 0
      else of_nat (length (filter (\<lambda>i. norm1 ! i = norm2 ! i) [0 ..< min (length norm1) (length norm2)]))
             / of_nat (max (length norm1) (length norm2)))"



subsection \<open>The whole detector\<close>










text \<open>
  The split in the specification's words, an alphabetic prefix and a trailing integer
  suffix: the lowercased name is one or more letters followed by one or more digits.
\<close>

definition is_letter :: "char \<Rightarrow> bool" where
  "is_letter c = (c \<in> set ascii_uppercase \<or> c \<in> set ascii_lowercase)"







text \<open>
  The user lists of the specification's two examples, and one of two names made of
  digits only.
\<close>

definition named :: "string \<Rightarrow> pydict" where
  "named username = [''name'' \<mapsto> PStr username]"




section \<open>Rate-limited fetch client (roblox\_api.py, \_rate\_limited\_request)\<close>

text \<open>
  The client's fields read by the request are the spacing \<^verbatim>\<open>rate_limit_delay\<close>, the time of
  the last response \<^verbatim>\<open>last_request_time\<close> and the session.  The model adds the event
  loop's clock and a trace of what the request did: each \<^verbatim>\<open>asyncio.sleep\<close>, tagged by the
  call site, and each request sent.  A sleep advances the clock by its duration.
\<close>

datatype event =
  RateLimitSleep rat | BackoffSleep rat | RetryPause rat | Get nat | Post

record client =
  rate_limit_delay :: rat
  last_request_time :: rat
  session :: bool
  clock :: rat
  trace :: "event list"

text \<open>
  The constructor, started at clock reading \<open>t\<close>.  It has the configuration in scope and
  sets the spacing from a literal.
\<close>

definition RobloxAPI :: "roblox_config \<Rightarrow> rat \<Rightarrow> client" where
  "RobloxAPI cfg t =
     \<lparr>rate_limit_delay = 15 / 10, last_request_time = 0, session = False, clock = t, trace = []\<rparr>"

definition ensure_session :: "client \<Rightarrow> client" where
  "ensure_session self = (if \<not> session self then self\<lparr>session := True\<rparr> else self)"

text \<open>
  What the remote side does with one request: after some latency, either a response
  with a status and, where the body decodes, its JSON value, or an exception raised by
  the HTTP library.  The server of a request maps the attempt number to this.
\<close>

datatype 'j outcome = Response nat "'j option" | Raises py_error

record 'j exchange =
  latency :: rat
  outcome :: "'j outcome"

datatype 'j control = Return "'j option" | Continue

text \<open>The spacing before an attempt (lines 29 to 32).\<close>

definition rate_limit_wait :: "client \<Rightarrow> client" where
  "rate_limit_wait self =
     (let current_time = clock self;
          time_since_last = current_time - last_request_time self in
      if time_since_last < rate_limit_delay self
      then self\<lparr>clock := clock self + (rate_limit_delay self - time_since_last),
                trace := trace self @ [RateLimitSleep (rate_limit_delay self - time_since_last)]\<rparr>
      else self)"

text \<open>
  The body of the \<^verbatim>\<open>try\<close> for one attempt (lines 35 to 51): it raises, returns or
  continues with the next attempt.  \<^verbatim>\<open>response.json()\<close> raises where the body does not
  decode.
\<close>

definition attempt_body ::
  "(nat \<Rightarrow> 'j exchange) \<Rightarrow> int \<Rightarrow> nat \<Rightarrow> client \<Rightarrow> (py_error \<times> client) + ('j control \<times> client)" where
  "attempt_body server max_retries attempt self =
     (let sent = self\<lparr>clock := clock self + latency (server attempt), trace := trace self @ [Get attempt]\<rparr> in
      case outcome (server attempt) of
        Raises e \<Rightarrow> Inl (e, sent)
      | Response status body \<Rightarrow>
          (let self' = sent\<lparr>last_request_time := clock sent\<rparr> in
           if status = 200 then
             (case body of
                Some j \<Rightarrow> Inr (Return (Some j), self')
              | None \<Rightarrow> Inl (ContentTypeError, self'))
           else if status = 429 then
             (if int attempt < max_retries - 1 then
                (let wait_time = min 8 (2 ^ attempt) in
                 Inr (Continue, self'\<lparr>clock := clock self' + wait_time,
                                     trace := trace self' @ [BackoffSleep wait_time]\<rparr>))
              else Inr (Return None, self'))
           else Inr (Return None, self')))"

text \<open>
  The \<^verbatim>\<open>for\<close> loop over \<^verbatim>\<open>range(max_retries)\<close>, with the \<^verbatim>\<open>except Exception\<close> clause (lines
  52 to 57) and the \<^verbatim>\<open>return None\<close> after the loop.  An exception that the clause does not
  catch leaves the function.
\<close>

fun request_loop ::
  "(nat \<Rightarrow> 'j exchange) \<Rightarrow> int \<Rightarrow> nat list \<Rightarrow> client \<Rightarrow> py_error + ('j option \<times> client)" where
  "request_loop server max_retries [] self = Inr (None, self)"
| "request_loop server max_retries (attempt # rest) self =
     (let self = rate_limit_wait self in
      if session self then
        (case attempt_body server max_retries attempt self of
           Inr (Return result, self') \<Rightarrow> Inr (result, self')
         | Inr (Continue, self') \<Rightarrow> request_loop server max_retries rest self'
         | Inl (e, self') \<Rightarrow>
             (if is_Exception e then
                (if int attempt < max_retries - 1
                 then request_loop server max_retries rest
                        (self'\<lparr>clock := clock self' + 1, trace := trace self' @ [RetryPause 1]\<rparr>)
                 else Inr (None, self'))
              else Inl e))
      else request_loop server max_retries rest self)"

definition rate_limited_request ::
  "(nat \<Rightarrow> 'j exchange) \<Rightarrow> int \<Rightarrow> client \<Rightarrow> py_error + ('j option \<times> client)" where
  "rate_limited_request server max_retries self =
     request_loop server max_retries [0 ..< nat max_retries] (ensure_session self)"

text \<open>A server that answers 429 to every attempt, after the latencies \<open>lat\<close>.\<close>

definition always_429 :: "(nat \<Rightarrow> rat) \<Rightarrow> nat \<Rightarrow> 'j exchange" where
  "always_429 lat attempt = \<lparr>latency = lat attempt, outcome = Response 429 None\<rparr>"

text \<open>The sleeps of a trace that come from the throttling backoff, and the requests sent.\<close>

fun backoff_waits :: "event list \<Rightarrow> rat list" where
  "backoff_waits [] = []"
| "backoff_waits (BackoffSleep d # es) = d # backoff_waits es"
| "backoff_waits (e # es) = backoff_waits es"

fun attempts_made :: "event list \<Rightarrow> nat list" where
  "attempts_made [] = []"
| "attempts_made (Get k # es) = k # attempts_made es"
| "attempts_made (e # es) = attempts_made es"

section \<open>Profile lookup by name (roblox\_api.py, get\_user\_profile)\<close>

text \<open>A decoded JSON value; an object is the list of the items of the decoded dictionary.\<close>

datatype json =
  JNull | JBool bool | JNum int | JStr string | JArr "json list" | JObj "(string \<times> json) list"

fun json_truthy :: "json \<Rightarrow> bool" where
  "json_truthy JNull = False"
| "json_truthy (JBool b) = b"
| "json_truthy (JNum n) = (n \<noteq> 0)"
| "json_truthy (JStr s) = (s \<noteq> [])"
| "json_truthy (JArr xs) = (xs \<noteq> [])"
| "json_truthy (JObj kvs) = (kvs \<noteq> [])"

text \<open>\<^verbatim>\<open>x['id']\<close> for the first element \<open>x\<close> of the data.\<close>

fun subscript_id :: "json \<Rightarrow> py_error + json" where
  "subscript_id (JObj kvs) = (case map_of kvs ''id'' of None \<Rightarrow> Inl KeyError | Some v \<Rightarrow> Inr v)"
| "subscript_id x = Inl TypeError"

text \<open>
  \<^verbatim>\<open>len(v) > 0\<close> followed by \<^verbatim>\<open>v[0]['id']\<close> for a truthy \<open>v\<close>: a number or boolean has no
  length, a character of a string cannot be subscripted by a string, and a dictionary
  with string keys has no key 0.
\<close>

fun first_id :: "json \<Rightarrow> py_error + json" where
  "first_id (JArr (x # xs)) = subscript_id x"
| "first_id (JArr []) = Inl IndexError"
| "first_id (JObj kvs) = Inl KeyError"
| "first_id v = Inl TypeError"

text \<open>
  Lines 76 and 77: the user id the lookup resolved to, nothing where the condition of the
  \<^verbatim>\<open>if\<close> is false, or the exception raised on the way.
\<close>

fun resolve_user_id :: "json \<Rightarrow> py_error + json option" where
  "resolve_user_id (JObj kvs) =
     (let v = (case map_of kvs ''data'' of None \<Rightarrow> JNull | Some v \<Rightarrow> v) in
      if json_truthy v then (case first_id v of Inl e \<Rightarrow> Inl e | Inr user_id \<Rightarrow> Inr (Some user_id))
      else Inr None)"
| "resolve_user_id data = Inl AttributeError"

text \<open>
  The body of the \<^verbatim>\<open>try\<close> (lines 72 to 80).  \<open>post\<close> is what the remote side does with the
  POST, \<open>server\<close> gives the server of the GET for a user id.
\<close>

definition profile_body ::
  "json exchange \<Rightarrow> (json \<Rightarrow> nat \<Rightarrow> json exchange) \<Rightarrow> client \<Rightarrow> py_error + (json option \<times> client)" where
  "profile_body post server self =
     (if session self then
        (let sent = self\<lparr>clock := clock self + latency post, trace := trace self @ [Post]\<rparr> in
         case outcome post of
           Raises e \<Rightarrow> Inl e
         | Response status body \<Rightarrow>
             if status = 200 then
               (case body of
                  None \<Rightarrow> Inl ContentTypeError
                | Some data \<Rightarrow>
                    (case resolve_user_id data of
                       Inl e \<Rightarrow> Inl e
                     | Inr None \<Rightarrow> Inr (None, sent)
                     | Inr (Some user_id) \<Rightarrow> rate_limited_request (server user_id) 3 sent))
             else Inr (None, sent))
      else Inr (None, self))"

text \<open>
  The \<^verbatim>\<open>except Exception\<close> clause around it (lines 81 to 83).  The state after a caught
  exception is not followed further: the result is \<^verbatim>\<open>None\<close>.
\<close>

definition get_user_profile ::
  "json exchange \<Rightarrow> (json \<Rightarrow> nat \<Rightarrow> json exchange) \<Rightarrow> client \<Rightarrow> py_error + json option" where
  "get_user_profile post server self =
     (case profile_body post server (ensure_session self) of
        Inr (result, self') \<Rightarrow> Inr result
      | Inl e \<Rightarrow> if is_Exception e then Inr None else Inl e)"

text \<open>Servers and states for the examples.\<close>

definition flaky_server :: "nat \<Rightarrow> json exchange" where
  "flaky_server attempt =
     (if attempt = 0 then \<lparr>latency = 1 / 10, outcome = Raises ClientError\<rparr>
      else if attempt = 1 then \<lparr>latency = 1 / 10, outcome = Response 429 None\<rparr>
      else \<lparr>latency = 1 / 10, outcome = Response 503 None\<rparr>)"

definition fresh_client :: client where
  "fresh_client = RobloxAPI default_config 100"

text \<open>
  An outcome after which the loop goes on to the next attempt, where one is left: a 429,
  or an exception that the \<^verbatim>\<open>except\<close> clause catches (raised by the request or by the
  decoding of a 200).
\<close>

fun retried :: "'j outcome \<Rightarrow> bool" where
  "retried (Raises e) = is_Exception e"
| "retried (Response status body) = (status = 429 \<or> (status = 200 \<and> body = None))"

definition not_found_post :: "json exchange" where
  "not_found_post = \<lparr>latency = 1 / 10, outcome = Response 404 None\<rparr>"

section \<open>A configuration with every analysis setting overridden\<close>

definition overridden_config :: roblox_config where
  "overridden_config =
     \<lparr>MIN_BADGE_COUNT = 10,
      ACCOUNT_AGE_THRESHOLD_DAYS = 30,
      SUSPICIOUS_PATTERNS = [''zzz''],
      SUSPICIOUS_BADGE_IDS = [7],
      LOW_THRESHOLD = 10,
      MEDIUM_THRESHOLD = 20\<rparr>"

definition badge_7 :: pydict where
  "badge_7 = [''id'' \<mapsto> PInt 7, ''name'' \<mapsto> PStr ''Seven'']"

section \<open>Properties of the threat aggregator\<close>

lemma threat_percentage_formula:
  "threat_percentage r =
     (min (of_nat (length (suspicious_friends r)) / 3) 1 * 2
      + min (of_nat (length (suspicious_followers r)) / 2) 1 * 1
      + min (of_nat (length (suspicious_following r)) / 2) 1 * 1
      + min (of_nat (if account_age_flag r then 1 else 0) / 1) 1 * 3
      + min (of_nat (if badge_count_flag r then 1 else 0) / 1) 1 * 2
      + min (of_nat (length (specific_badges_found r)) / 3) 1 * 2
      + min (of_nat (if avatar_flag r then 1 else 0) / 1) 1 * 1) / 12 * 100"
  by (simp add: threat_percentage_def factors_def)

lemma threat_percentage_grid:
  "\<exists>k::nat. threat_percentage r = of_nat k * (25 / 18)"
proof -
  have m3: "\<exists>k::nat. min (rat_of_nat n / 3) 1 * 2 = of_nat k / 6" for n
  proof (cases "n \<ge> 3")
    case True
    then have "min (rat_of_nat n / 3) 1 * 2 = of_nat 12 / 6" by (simp add: min_def)
    then show ?thesis by blast
  next
    case False
    then have "min (rat_of_nat n / 3) 1 * 2 = of_nat (4 * n) / 6" by (simp add: min_def)
    then show ?thesis by blast
  qed
  have m2: "\<exists>k::nat. min (rat_of_nat n / 2) 1 * 1 = of_nat k / 6" for n
  proof (cases "n \<ge> 2")
    case True
    then have "min (rat_of_nat n / 2) 1 * 1 = of_nat 6 / 6" by (simp add: min_def)
    then show ?thesis by blast
  next
    case False
    then have "min (rat_of_nat n / 2) 1 * 1 = of_nat (3 * n) / 6" by (simp add: min_def)
    then show ?thesis by blast
  qed
  have m1: "\<exists>k::nat. min (rat_of_nat (if b then 1 else 0) / 1) 1 * of_nat w = of_nat k / 6" for b w
  proof -
    have "min (rat_of_nat (if b then 1 else 0) / 1) 1 * of_nat w = of_nat (if b then 6 * w else 0) / 6"
      by simp
    then show ?thesis by blast
  qed
  obtain k1 :: nat where k1: "min (rat_of_nat (length (suspicious_friends r)) / 3) 1 * 2 = of_nat k1 / 6"
    using m3 by blast
  obtain k2 :: nat where k2: "min (rat_of_nat (length (suspicious_followers r)) / 2) 1 * 1 = of_nat k2 / 6"
    using m2 by blast
  obtain k3 :: nat where k3: "min (rat_of_nat (length (suspicious_following r)) / 2) 1 * 1 = of_nat k3 / 6"
    using m2 by blast
  obtain k4 :: nat where k4: "min (rat_of_nat (if account_age_flag r then 1 else 0) / 1) 1 * 3 = of_nat k4 / 6"
    using m1 [of "account_age_flag r" 3] by auto
  obtain k5 :: nat where k5: "min (rat_of_nat (if badge_count_flag r then 1 else 0) / 1) 1 * 2 = of_nat k5 / 6"
    using m1 [of "badge_count_flag r" 2] by auto
  obtain k6 :: nat where k6: "min (rat_of_nat (length (specific_badges_found r)) / 3) 1 * 2 = of_nat k6 / 6"
    using m3 by blast
  obtain k7 :: nat where k7: "min (rat_of_nat (if avatar_flag r then 1 else 0) / 1) 1 * 1 = of_nat k7 / 6"
    using m1 [of "avatar_flag r" 1] by auto
  have "threat_percentage r = of_nat (k1 + k2 + k3 + k4 + k5 + k6 + k7) * (25 / 18)"
    unfolding threat_percentage_formula k1 k2 k3 k4 k5 k6 k7 by (simp add: field_simps)
  then show ?thesis by blast
qed

lemma threat_percentage_margin:
  "threat_percentage r \<le> 40 - 10 / 9 \<or> (40 + 5 / 18 \<le> threat_percentage r \<and> threat_percentage r \<le> 70 - 5 / 9)
     \<or> 70 + 5 / 6 \<le> threat_percentage r"
proof -
  obtain k :: nat where k: "threat_percentage r = of_nat k * (25 / 18)"
    using threat_percentage_grid by blast
  have "k \<le> 28 \<or> (29 \<le> k \<and> k \<le> 50) \<or> 51 \<le> k" by arith
  then show ?thesis
  proof (elim disjE conjE)
    assume "k \<le> 28"
    then have "rat_of_nat k \<le> 28" by simp
    then show ?thesis unfolding k by simp
  next
    assume "29 \<le> k" "k \<le> 50"
    then have "29 \<le> rat_of_nat k" "rat_of_nat k \<le> 50" by simp_all
    then show ?thesis unfolding k by simp
  next
    assume "51 \<le> k"
    then have "51 \<le> rat_of_nat k" by simp
    then show ?thesis unfolding k by simp
  qed
qed

text \<open>
  Claim C1.  For every evidence bundle the aggregator's percentage is the sum over the
  seven factors of \<open>min (observed / cap) 1 * weight\<close> (caps 3, 2, 2, 1, 1, 3, 1 and weights
  2, 1, 1, 3, 2, 2, 1), divided by the total weight 12 and multiplied by 100.  The verdict
  is High exactly when the percentage is at least 70, Medium exactly when it is at least
  40 and below 70, and Low exactly when it is below 40.  With every factor at zero the
  percentage is 0 and the verdict Low; with only the account-age flag set the percentage
  is exactly 25 and the verdict Low.
\<close>

theorem calculate_threat_level_spec:
  "threat_percentage r =
     (min (of_nat (length (suspicious_friends r)) / 3) 1 * 2
      + min (of_nat (length (suspicious_followers r)) / 2) 1 * 1
      + min (of_nat (length (suspicious_following r)) / 2) 1 * 1
      + min (of_nat (if account_age_flag r then 1 else 0) / 1) 1 * 3
      + min (of_nat (if badge_count_flag r then 1 else 0) / 1) 1 * 2
      + min (of_nat (length (specific_badges_found r)) / 3) 1 * 2
      + min (of_nat (if avatar_flag r then 1 else 0) / 1) 1 * 1) / 12 * 100
   \<and> (calculate_threat_level r = ''High'') = (threat_percentage r \<ge> 70)
   \<and> (calculate_threat_level r = ''Medium'') = (threat_percentage r \<ge> 40 \<and> threat_percentage r < 70)
   \<and> (calculate_threat_level r = ''Low'') = (threat_percentage r < 40)
   \<and> threat_percentage all_zero_results = 0
   \<and> calculate_threat_level all_zero_results = ''Low''
   \<and> threat_percentage age_only_results = 25
   \<and> calculate_threat_level age_only_results = ''Low''"
proof (intro conjI)
  show "(calculate_threat_level r = ''High'') = (threat_percentage r \<ge> 70)"
    by (simp add: calculate_threat_level_def)
  show "(calculate_threat_level r = ''Medium'') = (threat_percentage r \<ge> 40 \<and> threat_percentage r < 70)"
    by (auto simp add: calculate_threat_level_def)
  show "(calculate_threat_level r = ''Low'') = (threat_percentage r < 40)"
    by (auto simp add: calculate_threat_level_def)
  show z: "threat_percentage all_zero_results = 0"
    by (simp add: threat_percentage_formula all_zero_results_def)
  show a: "threat_percentage age_only_results = 25"
    by (simp add: threat_percentage_formula age_only_results_def all_zero_results_def)
  show "calculate_threat_level all_zero_results = ''Low''"
    by (simp add: calculate_threat_level_def threat_percentage_formula all_zero_results_def)
  show "calculate_threat_level age_only_results = ''Low''"
    by (simp add: calculate_threat_level_def threat_percentage_formula age_only_results_def all_zero_results_def)
qed (rule threat_percentage_formula)

section \<open>Properties of the suspicious-name match\<close>

lemma first_pattern_filter:
  "first_pattern ps username display_name =
     (case filter (\<lambda>t. sublist t username \<or> sublist t display_name) ps of
        [] \<Rightarrow> None | t # _ \<Rightarrow> Some t)"
  by (induction ps) auto

lemma val_lower_get_wf:
  "str_or_absent user k \<Longrightarrow>
     val_lower (dict_get_default user k (PStr [])) = Inr (lower (str_field user k))"
  by (auto simp: str_or_absent_def dict_get_default_def str_field_def lower_def
      split: option.splits pyval.splits)

lemma suspicious_names_loop_map_filter:
  "\<forall>user \<in> set users. wf_relation user \<Longrightarrow>
   suspicious_names_loop self users acc =
     Inr (acc @ List.map_filter
        (\<lambda>user. map_option (\<lambda>p. user(''matched_pattern'' \<mapsto> PStr (upper p)))
           (first_pattern (suspicious_patterns self)
              (lower (str_field user ''name'')) (lower (str_field user ''displayName''))))
        users)"
proof (induction users arbitrary: acc)
  case Nil
  then show ?case by (simp add: List.map_filter_simps)
next
  case (Cons user users)
  then have wf: "str_or_absent user ''name''" "str_or_absent user ''displayName''"
    by (simp_all add: wf_relation_def)
  from Cons.prems have rest: "\<forall>u \<in> set users. wf_relation u" by simp
  show ?case
  proof (cases "first_pattern (suspicious_patterns self)
      (lower (str_field user ''name'')) (lower (str_field user ''displayName''))")
    case None
    then show ?thesis
      by (simp add: val_lower_get_wf [OF wf(1)] val_lower_get_wf [OF wf(2)]
          Cons.IH [OF rest] List.map_filter_simps)
  next
    case (Some p)
    then show ?thesis
      by (simp add: val_lower_get_wf [OF wf(1)] val_lower_get_wf [OF wf(2)]
          Cons.IH [OF rest] List.map_filter_simps) (rule ext, simp)
  qed
qed

lemma lower_tokens:
  "t \<in> set (suspicious_patterns (ThreatAnalyzer cfg)) \<Longrightarrow> lower t = t"
  by (auto simp: ThreatAnalyzer_def lower_def lower_char_def ascii_uppercase_def ascii_lowercase_def)

lemma spec_tag_first_pattern:
  "spec_tag (suspicious_patterns (ThreatAnalyzer cfg)) user =
     map_option (\<lambda>p. user(''matched_pattern'' \<mapsto> PStr (upper p)))
       (first_pattern (suspicious_patterns (ThreatAnalyzer cfg))
          (lower (str_field user ''name'')) (lower (str_field user ''displayName'')))"
proof -
  have "filter (\<lambda>t. sublist (lower t) (lower (str_field user ''name''))
                   \<or> sublist (lower t) (lower (str_field user ''displayName'')))
          (suspicious_patterns (ThreatAnalyzer cfg))
        = filter (\<lambda>t. sublist t (lower (str_field user ''name''))
                   \<or> sublist t (lower (str_field user ''displayName'')))
          (suspicious_patterns (ThreatAnalyzer cfg))"
    by (rule filter_cong) (simp_all add: lower_tokens)
  then show ?thesis
    by (simp add: spec_tag_def spec_matched_pattern_def first_pattern_filter split: list.splits)
qed

lemma length_map_filter:
  "length (List.map_filter f xs) = length (filter (\<lambda>x. f x \<noteq> None) xs)"
  by (induction xs) (auto simp: List.map_filter_simps split: option.splits)

text \<open>
  Claim C2.  For every list of relation records whose user name and display name are
  strings (or absent), the suspicious output is the input list with every record that
  contains no token dropped and every other record kept once, in order, with the key
  \<^verbatim>\<open>matched_pattern\<close> set to the uppercased first token, in the order of the token list,
  whose lowercase form is a substring of the lowercased user name or display name.  So
  each output record carries exactly one label, a record containing several tokens
  appears once, and the number of output records is the number of input records that
  contain a token.
\<close>

theorem check_suspicious_names_spec:
  assumes "\<forall>user \<in> set users_list. wf_relation user"
  shows "check_suspicious_names (ThreatAnalyzer cfg) users_list =
           Inr (List.map_filter (spec_tag (suspicious_patterns (ThreatAnalyzer cfg))) users_list)
         \<and> length (List.map_filter (spec_tag (suspicious_patterns (ThreatAnalyzer cfg))) users_list) =
           length (filter (\<lambda>user. spec_matched_pattern (suspicious_patterns (ThreatAnalyzer cfg)) user \<noteq> None)
             users_list)"
proof
  show "check_suspicious_names (ThreatAnalyzer cfg) users_list =
           Inr (List.map_filter (spec_tag (suspicious_patterns (ThreatAnalyzer cfg))) users_list)"
    unfolding check_suspicious_names_def suspicious_names_loop_map_filter [OF assms]
    by (simp add: spec_tag_first_pattern [abs_def])
  show "length (List.map_filter (spec_tag (suspicious_patterns (ThreatAnalyzer cfg))) users_list) =
           length (filter (\<lambda>user. spec_matched_pattern (suspicious_patterns (ThreatAnalyzer cfg)) user \<noteq> None)
             users_list)"
    by (simp add: length_map_filter spec_tag_def)
qed

lemma tokens_simp:
  "suspicious_patterns (ThreatAnalyzer cfg) = [''xyris'', ''vqs'', ''risen'', ''sc'', ''dt'', ''xraid'']"
  by (simp add: ThreatAnalyzer_def)

theorem check_suspicious_names_spec_witness:
  "list_all wf_relation sample_relations
   \<and> check_suspicious_names (ThreatAnalyzer default_config) sample_relations =
       Inr [[''name'' \<mapsto> PStr ''Xyris_SC'', ''displayName'' \<mapsto> PStr ''Bob'',
             ''matched_pattern'' \<mapsto> PStr ''XYRIS''],
            [''name'' \<mapsto> PStr ''carol'', ''displayName'' \<mapsto> PStr ''the RISEN one'',
             ''matched_pattern'' \<mapsto> PStr ''RISEN'']]"
proof -
  have wf: "\<forall>user \<in> set sample_relations. wf_relation user"
    by (simp add: sample_relations_def wf_relation_def str_or_absent_def)
  have ev: "List.map_filter (spec_tag (suspicious_patterns (ThreatAnalyzer default_config))) sample_relations =
      [[''name'' \<mapsto> PStr ''Xyris_SC'', ''displayName'' \<mapsto> PStr ''Bob'',
             ''matched_pattern'' \<mapsto> PStr ''XYRIS''],
            [''name'' \<mapsto> PStr ''carol'', ''displayName'' \<mapsto> PStr ''the RISEN one'',
             ''matched_pattern'' \<mapsto> PStr ''RISEN'']]"
    by (simp add: tokens_simp sample_relations_def List.map_filter_simps spec_tag_def
        spec_matched_pattern_def str_field_def lower_def upper_def lower_char_def upper_char_def
        ascii_uppercase_def ascii_lowercase_def sublist_code(3))
  show ?thesis
    using check_suspicious_names_spec [OF wf, of default_config] wf ev
    by (simp add: list_all_iff)
qed

section \<open>Properties of the account-age check\<close>

text \<open>
  Claim C5.  With \<open>now\<close> the reading of the clock, the account-age check of a parsed
  creation time is true exactly when that time is strictly later than \<open>now\<close> minus 120
  days.  A string is parsed first (by \<^verbatim>\<open>fromisoformat\<close> when it contains a T, by
  \<^verbatim>\<open>strptime\<close> otherwise) and the same comparison is made; a string the library rejects,
  and a value that is neither a string nor a datetime, give false.  A creation time of
  \<open>now\<close> minus 10 days gives true, of \<open>now\<close> minus 200 days false, and of exactly \<open>now\<close>
  minus 120 days false.
\<close>

theorem check_account_age_spec:
  "check_account_age lib now (PDatetime d) = (now - timedelta_days 120 < wall d)
   \<and> check_account_age lib now (PStr s) =
       (case (if CHR ''T'' \<in> set s then fromisoformat lib (replace_Z s) else strptime_ymd lib s) of
          None \<Rightarrow> False
        | Some d' \<Rightarrow> now - timedelta_days 120 < wall d')
   \<and> check_account_age lib now PNone = False
   \<and> check_account_age lib now (PInt i) = False
   \<and> check_account_age lib now (PDatetime \<lparr>wall = now - timedelta_days 10, tzinfo = tz\<rparr>) = True
   \<and> check_account_age lib now (PDatetime \<lparr>wall = now - timedelta_days 200, tzinfo = tz\<rparr>) = False
   \<and> check_account_age lib now (PDatetime \<lparr>wall = now - timedelta_days 120, tzinfo = tz\<rparr>) = False"
  by (simp add: check_account_age_def parse_date_def timedelta_days_def split: option.splits)

section \<open>Properties of the badge watch-list check\<close>

lemma check_specific_badges_loop_acc:
  "check_specific_badges_loop self badges acc = acc @ check_specific_badges_loop self badges []"
proof (induction badges arbitrary: acc)
  case Nil
  show ?case by simp
next
  case (Cons badge badges)
  show ?case
  proof (cases "watched self (dict_get badge ''id'')")
    case None
    then show ?thesis using Cons.IH [of acc] by simp
  next
    case (Some expected)
    then show ?thesis
      using Cons.IH [of "acc @ [[''id'' \<mapsto> dict_get badge ''id'',
                ''name'' \<mapsto> dict_get_default badge ''name'' (PStr expected),
                ''description'' \<mapsto> dict_get_default badge ''description'' (PStr []),
                ''expected_name'' \<mapsto> PStr expected]]"]
        Cons.IH [of "[[''id'' \<mapsto> dict_get badge ''id'',
                ''name'' \<mapsto> dict_get_default badge ''name'' (PStr expected),
                ''description'' \<mapsto> dict_get_default badge ''description'' (PStr []),
                ''expected_name'' \<mapsto> PStr expected]]"]
      by simp
  qed
qed

lemma watched_spec:
  "watched self (dict_get badge ''id'') = map_option snd (spec_badge_match self badge)"
  by (auto simp: dict_get_def spec_badge_match_def split: option.splits pyval.splits)

lemma spec_badge_match_id:
  "spec_badge_match self badge = Some (i, n) \<Longrightarrow> dict_get badge ''id'' = PInt i"
  by (auto simp: dict_get_def spec_badge_match_def split: option.splits pyval.splits)

lemma check_specific_badges_Cons:
  "check_specific_badges self (badge # badges) =
     (case spec_badge_match self badge of
        None \<Rightarrow> check_specific_badges self badges
      | Some (i, n) \<Rightarrow>
          [''id'' \<mapsto> PInt i,
           ''name'' \<mapsto> dict_get_default badge ''name'' (PStr n),
           ''description'' \<mapsto> dict_get_default badge ''description'' (PStr []),
           ''expected_name'' \<mapsto> PStr n] # check_specific_badges self badges)"
proof (cases "spec_badge_match self badge")
  case None
  then show ?thesis by (simp add: check_specific_badges_def watched_spec)
next
  case (Some hit)
  obtain i n where hit: "hit = (i, n)" by (cases hit)
  have w: "watched self (dict_get badge ''id'') = Some n"
    using Some hit by (simp add: watched_spec)
  have "check_specific_badges self (badge # badges) =
      check_specific_badges_loop self badges
        [[''id'' \<mapsto> dict_get badge ''id'',
          ''name'' \<mapsto> dict_get_default badge ''name'' (PStr n),
          ''description'' \<mapsto> dict_get_default badge ''description'' (PStr []),
          ''expected_name'' \<mapsto> PStr n]]"
    by (simp add: check_specific_badges_def w)
  also have "\<dots> = [''id'' \<mapsto> dict_get badge ''id'',
          ''name'' \<mapsto> dict_get_default badge ''name'' (PStr n),
          ''description'' \<mapsto> dict_get_default badge ''description'' (PStr []),
          ''expected_name'' \<mapsto> PStr n] # check_specific_badges self badges"
    by (subst check_specific_badges_loop_acc) (simp add: check_specific_badges_def)
  finally show ?thesis
    using Some hit spec_badge_match_id [of self badge i n] by simp
qed

lemma check_specific_badges_Nil: "check_specific_badges self [] = []"
  by (simp add: check_specific_badges_def)

lemma check_specific_badges_fields:
  "map (\<lambda>entry. (entry ''id'', entry ''expected_name'')) (check_specific_badges self badges_list) =
     map (\<lambda>(i, n). (Some (PInt i), Some (PStr n))) (List.map_filter (spec_badge_match self) badges_list)"
proof (induction badges_list)
  case Nil
  show ?case by (simp add: check_specific_badges_Nil List.map_filter_simps)
next
  case (Cons badge badges)
  then show ?case
    by (cases "spec_badge_match self badge")
       (auto simp: check_specific_badges_Cons List.map_filter_simps)
qed

text \<open>
  Claim C6.  For every badge list and every watch list, the specific-badge check returns
  one entry per badge whose id is a key of the watch list, in the order of the badge
  list, and nothing for any other badge: the ids and expected names of the entries are
  exactly the watch-list hits of the badges, so each entry's \<^verbatim>\<open>expected_name\<close> is the watch
  list's name for its id, whatever the badge's live name.  With the watch list
  \<open>{1: "A Natural"}\<close> and one badge of id 1 whose live name differs, the result is one
  entry with expected name \<open>A Natural\<close>.
\<close>

theorem check_specific_badges_spec:
  "map (\<lambda>entry. (entry ''id'', entry ''expected_name'')) (check_specific_badges self badges_list) =
     map (\<lambda>(i, n). (Some (PInt i), Some (PStr n))) (List.map_filter (spec_badge_match self) badges_list)
   \<and> length (check_specific_badges self badges_list) =
       length (filter (\<lambda>badge. spec_badge_match self badge \<noteq> None) badges_list)
   \<and> check_specific_badges a_natural_analyzer [renamed_badge] =
       [[''id'' \<mapsto> PInt 1, ''name'' \<mapsto> PStr ''Renamed'', ''description'' \<mapsto> PStr [],
         ''expected_name'' \<mapsto> PStr ''A Natural'']]"
proof (intro conjI)
  show "map (\<lambda>entry. (entry ''id'', entry ''expected_name'')) (check_specific_badges self badges_list) =
     map (\<lambda>(i, n). (Some (PInt i), Some (PStr n))) (List.map_filter (spec_badge_match self) badges_list)"
    by (rule check_specific_badges_fields)
  have "length (map (\<lambda>entry. (entry ''id'', entry ''expected_name'')) (check_specific_badges self badges_list)) =
        length (List.map_filter (spec_badge_match self) badges_list)"
    unfolding check_specific_badges_fields by simp
  then show "length (check_specific_badges self badges_list) =
       length (filter (\<lambda>badge. spec_badge_match self badge \<noteq> None) badges_list)"
    by (simp add: length_map_filter)
  show "check_specific_badges a_natural_analyzer [renamed_badge] =
       [[''id'' \<mapsto> PInt 1, ''name'' \<mapsto> PStr ''Renamed'', ''description'' \<mapsto> PStr [],
         ''expected_name'' \<mapsto> PStr ''A Natural'']]"
    by (simp add: check_specific_badges_def a_natural_analyzer_def renamed_badge_def
        dict_get_def dict_get_default_def)
qed

section \<open>Properties of the creation-date clustering\<close>

lemma abs_days_of_le_7:
  "(abs (days_of delta) \<le> 7) = (- timedelta_days 7 \<le> delta \<and> delta < timedelta_days 8)"
  unfolding days_of_def timedelta_days_def by linarith

lemma creation_date_loop_window:
  "creation_date_loop lib user_date friends acc =
     acc @ List.map_filter
       (\<lambda>friend_data.
          let friend_created = dict_get friend_data ''created_date'' in
          if py_not friend_created then None
          else
            (case parse_date lib friend_created of
               Inl e \<Rightarrow> None
             | Inr friend_date \<Rightarrow>
                 if - timedelta_days 7 \<le> wall user_date - wall friend_date
                    \<and> wall user_date - wall friend_date < timedelta_days 8
                 then Some [''username'' \<mapsto> dict_get friend_data ''name'',
                            ''created_date'' \<mapsto> friend_created,
                            ''days_apart'' \<mapsto> PInt (abs (days_of (wall user_date - wall friend_date)))]
                 else None))
       friends"
proof (induction friends arbitrary: acc)
  case Nil
  show ?case by simp
next
  case (Cons friend_data friends)
  show ?case
  proof (cases "py_not (dict_get friend_data ''created_date'')")
    case True
    then show ?thesis by (simp add: Cons.IH)
  next
    case False
    show ?thesis
    proof (cases "parse_date lib (dict_get friend_data ''created_date'')")
      case (Inl e)
      with False show ?thesis by (simp add: Cons.IH)
    next
      case (Inr friend_date)
      with False show ?thesis
        by (simp add: Cons.IH [of "acc @ [x]" for x] Cons.IH [of acc] abs_days_of_le_7 Let_def)
    qed
  qed
qed

text \<open>
  Claim C8.  The claim is that a candidate is reported exactly when its creation date is
  at most 7 days from the target's, in either direction.  The code rounds the signed
  difference down to whole days before it takes the absolute value, so (lemma
  \<open>abs_days_of_le_7\<close>) it reports a candidate that is up to 8 days older than the target but
  none that is more than 7 days younger.  For the two creation times 7 days and 1 hour
  apart: with the earlier one as the target, the later candidate is not reported; with
  the later one as the target, the earlier candidate is reported, 7 days apart.
\<close>

theorem check_creation_date_patterns_asymmetric:
  "check_creation_date_patterns sample_datetime_lib (PStr jan10) [candidate ''late'' jan17_1am] = []
   \<and> check_creation_date_patterns sample_datetime_lib (PStr jan17_1am) [candidate ''early'' jan10] =
       [[''username'' \<mapsto> PStr ''early'', ''created_date'' \<mapsto> PStr jan10, ''days_apart'' \<mapsto> PInt 7]]"
  by (simp add: check_creation_date_patterns_def parse_date_def sample_datetime_lib_def
      jan10_def jan17_1am_def candidate_def replace_Z_def dict_get_def days_of_def py_not_def)

section \<open>Properties of the character-substitution similarity\<close>

lemma substitutions_eq:
  "substitutions =
     [(CHR ''0'', CHR ''o''), (CHR ''1'', CHR ''l''), (CHR ''3'', CHR ''e''), (CHR ''4'', CHR ''a''),
      (CHR ''5'', CHR ''s''), (CHR ''7'', CHR ''t''), (CHR ''8'', CHR ''b''), (CHR ''@'', CHR ''a'')]"
  by (simp add: substitutions_def dict_literal_def)

lemma normalize_username_map: "normalize_username username = map spec_substitute username"
  by (simp add: normalize_username_def substitutions_eq str_replace_def spec_substitute_def)

lemma zip_matches_index:
  "length (filter (\<lambda>(a, b). a = b) (zip xs ys)) =
   length (filter (\<lambda>i. xs ! i = ys ! i) [0 ..< min (length xs) (length ys)])"
proof -
  have "zip xs ys = map (\<lambda>i. (xs ! i, ys ! i)) [0 ..< min (length xs) (length ys)]"
    by (rule nth_equalityI) simp_all
  then have "filter (\<lambda>(a, b). a = b) (zip xs ys) =
      map (\<lambda>i. (xs ! i, ys ! i)) (filter (\<lambda>i. xs ! i = ys ! i) [0 ..< min (length xs) (length ys)])"
    by (simp add: filter_map comp_def)
  then show ?thesis by simp
qed

text \<open>
  Claim C10.  The substitution table built from the literal maps the digit 1 to the
  letter l, and has no entry from 1 to i.  Normalizing a name replaces each of its
  characters by the table's letter for it: no 1 is left, every 1 has become an l (the
  l count grows by the number of 1s) and none an i (the i count is unchanged).  The
  similarity of two names is the number of positions at which the two normalized names
  agree, over the length of the longer one (0 when either is empty).
\<close>

theorem substitution_similarity_spec:
  "map_of substitutions (CHR ''1'') = Some (CHR ''l'')
   \<and> (CHR ''1'', CHR ''i'') \<notin> set substitutions
   \<and> normalize_username username = map spec_substitute username
   \<and> CHR ''1'' \<notin> set (normalize_username username)
   \<and> count_list (normalize_username username) (CHR ''i'') = count_list username (CHR ''i'')
   \<and> count_list (normalize_username username) (CHR ''l'') =
       count_list username (CHR ''l'') + count_list username (CHR ''1'')
   \<and> check_character_substitution_similarity username1 username2 = spec_similarity username1 username2"
proof (intro conjI)
  show "map_of substitutions (CHR ''1'') = Some (CHR ''l'')"
    by (simp add: substitutions_eq)
  show "(CHR ''1'', CHR ''i'') \<notin> set substitutions"
    by (simp add: substitutions_eq)
  show "normalize_username username = map spec_substitute username"
    by (rule normalize_username_map)
  show "CHR ''1'' \<notin> set (normalize_username username)"
    by (auto simp: normalize_username_map spec_substitute_def split: if_splits)
  show "count_list (normalize_username username) (CHR ''i'') = count_list username (CHR ''i'')"
    unfolding normalize_username_map
    by (induction username) (simp_all add: spec_substitute_def)
  show "count_list (normalize_username username) (CHR ''l'') =
       count_list username (CHR ''l'') + count_list username (CHR ''1'')"
    unfolding normalize_username_map
    by (induction username) (simp_all add: spec_substitute_def)
  show "check_character_substitution_similarity username1 username2 = spec_similarity username1 username2"
    by (simp add: check_character_substitution_similarity_def spec_similarity_def Let_def
        normalize_username_map zip_matches_index)
qed

section \<open>Properties of the sequential-numbering detector\<close>


















lemma lower_char_digit: "is_digit c \<Longrightarrow> lower_char c = c"
  unfolding is_digit_def by (elim disjE | simp add: lower_char_def ascii_uppercase_def ascii_lowercase_def)+

lemma lowercase_not_digit:
  "c \<in> set ascii_lowercase \<Longrightarrow> \<not> is_digit c \<and> c \<noteq> newline"
  unfolding ascii_lowercase_def by (auto simp: is_digit_def newline_def)

lemma lower_char_lowercase:
  "is_letter c \<Longrightarrow> lower_char c \<in> set ascii_lowercase"
proof -
  assume "is_letter c"
  then consider "c \<in> set ascii_uppercase" | "c \<notin> set ascii_uppercase" "c \<in> set ascii_lowercase"
    by (auto simp: is_letter_def)
  then show ?thesis
  proof cases
    case 1
    then have "c \<in> fst ` set (zip ascii_uppercase ascii_lowercase)"
      by (simp add: ascii_uppercase_def ascii_lowercase_def)
    then obtain d where d: "map_of (zip ascii_uppercase ascii_lowercase) c = Some d"
      by (metis map_of_eq_None_iff not_Some_eq)
    then have "(c, d) \<in> set (zip ascii_uppercase ascii_lowercase)" by (rule map_of_SomeD)
    then have "d \<in> set ascii_lowercase" by (rule set_zip_rightD)
    then show ?thesis using d by (simp add: lower_char_def)
  next
    case 2
    then have "c \<notin> fst ` set (zip ascii_uppercase ascii_lowercase)"
      by (simp add: ascii_uppercase_def ascii_lowercase_def)
    then have "map_of (zip ascii_uppercase ascii_lowercase) c = None"
      by (simp add: map_of_eq_None_iff)
    then show ?thesis using 2 by (simp add: lower_char_def)
  qed
qed

lemma lower_char_letter:
  "is_letter c \<Longrightarrow> \<not> is_digit (lower_char c) \<and> lower_char c \<noteq> newline"
  using lowercase_not_digit [OF lower_char_lowercase] by simp

lemma takeWhile_all_digits: "list_all is_digit ds \<Longrightarrow> takeWhile is_digit ds = ds"
  by (induction ds) auto

lemma dropWhile_all_digits: "list_all is_digit ds \<Longrightarrow> dropWhile is_digit ds = []"
  by (induction ds) auto

lemma reluctant_letters_digits:
  assumes "ds \<noteq> []" "list_all is_digit ds"
  shows "list_all (\<lambda>c. \<not> is_digit c \<and> c \<noteq> newline) ls \<Longrightarrow>
         reluctant base (ls @ ds) = Some (base @ ls, ds)"
proof (induction ls arbitrary: base)
  case Nil
  obtain d ds' where ds: "ds = d # ds'" using assms(1) by (cases ds) auto
  have "digits_to_end ds"
    using assms by (simp add: digits_to_end_def takeWhile_all_digits dropWhile_all_digits)
  then show ?case
    using assms(2) unfolding ds by (simp add: takeWhile_all_digits [of "d # ds'", simplified])
next
  case (Cons c ls)
  then have c: "\<not> is_digit c" "c \<noteq> newline" and rest: "list_all (\<lambda>c. \<not> is_digit c \<and> c \<noteq> newline) ls"
    by simp_all
  have "\<not> digits_to_end (c # ls @ ds)"
    using c by (simp add: digits_to_end_def)
  then show ?case
    using c Cons.IH [OF rest, of "base @ [c]"] by simp
qed

lemma regex_split_letters_digits:
  assumes "letters \<noteq> []" "list_all is_letter letters" "digits \<noteq> []" "list_all is_digit digits"
  shows "regex_split (letters @ digits) = Some (lower letters, int_of_digits digits)"
proof -
  obtain l ls where letters: "letters = l # ls" using assms(1) by (cases letters) auto
  have low_d: "lower digits = digits"
    using assms(4) by (induction digits) (simp_all add: lower_def lower_char_digit)
  then have low_d2: "map lower_char digits = digits" by (simp add: lower_def)
  have all: "list_all (\<lambda>c. \<not> is_digit c \<and> c \<noteq> newline) (lower letters)"
    using assms(2) by (induction letters) (simp_all add: lower_def lower_char_letter)
  then have hd: "lower_char l \<noteq> newline"
    and tl: "list_all (\<lambda>c. \<not> is_digit c \<and> c \<noteq> newline) (lower ls)"
    unfolding letters by (simp_all add: lower_def)
  have low_d': "list_all is_digit (lower digits)" "lower digits \<noteq> []"
    using assms(3,4) by (simp_all add: low_d)
  have "re_match (lower (letters @ digits)) = reluctant [lower_char l] (lower ls @ lower digits)"
    unfolding letters using hd by (simp add: lower_def)
  also have "\<dots> = Some ([lower_char l] @ lower ls, lower digits)"
    by (rule reluctant_letters_digits [OF low_d'(2) low_d'(1) tl])
  finally show ?thesis
    by (simp add: regex_split_def letters low_d2 lower_def)
qed






















section \<open>Properties of the rate-limited fetch client\<close>

lemma backoff_waits_append: "backoff_waits (xs @ ys) = backoff_waits xs @ backoff_waits ys"
  by (induction xs rule: backoff_waits.induct) simp_all

lemma attempts_made_append: "attempts_made (xs @ ys) = attempts_made xs @ attempts_made ys"
  by (induction xs rule: attempts_made.induct) simp_all

lemma upt_3: "[0 ..< 3] = [0::nat, 1, 2]"
  by (simp add: upt_rec)

text \<open>
  Claim C3.  The claim is that with \<^verbatim>\<open>max_retries=3\<close> and a 429 on every attempt the
  request returns null after exactly 3 attempts, with backoff waits of 2 and then 4 time
  units between them and none after the last.  The code returns null after exactly the
  attempts 0, 1 and 2 and does not wait after the last, but its backoff waits are
  \<open>min 8 (2 ^ attempt)\<close> for the attempt numbers 0 and 1, that is 1 and then 2, for every
  latency and every starting state.  From a fresh client (latencies 0) the whole trace
  is: request, backoff 1, spacing 1/2, request, backoff 2, request.
\<close>

theorem rate_limited_request_always_429:
  "(\<exists>self'. rate_limited_request (always_429 lat) 3 self = Inr (None, self')
      \<and> attempts_made (trace self') = attempts_made (trace self) @ [0, 1, 2]
      \<and> backoff_waits (trace self') = backoff_waits (trace self) @ [1, 2])
   \<and> map_sum id (\<lambda>(result, self'). (result, trace self'))
        (rate_limited_request (always_429 (\<lambda>k. 0)) 3 fresh_client) =
       Inr (None, [Get 0, BackoffSleep 1, RateLimitSleep (1 / 2), Get 1, BackoffSleep 2, Get 2])"
proof
  show "\<exists>self'. rate_limited_request (always_429 lat) 3 self = Inr (None, self')
      \<and> attempts_made (trace self') = attempts_made (trace self) @ [0, 1, 2]
      \<and> backoff_waits (trace self') = backoff_waits (trace self) @ [1, 2]"
    by (simp add: rate_limited_request_def upt_3 ensure_session_def rate_limit_wait_def
        attempt_body_def always_429_def Let_def backoff_waits_append attempts_made_append)
  show "map_sum id (\<lambda>(result, self'). (result, trace self'))
        (rate_limited_request (always_429 (\<lambda>k. 0)) 3 fresh_client) =
       Inr (None, [Get 0, BackoffSleep 1, RateLimitSleep (1 / 2), Get 1, BackoffSleep 2, Get 2])"
    by (simp add: rate_limited_request_def upt_3 ensure_session_def rate_limit_wait_def
        attempt_body_def always_429_def Let_def fresh_client_def RobloxAPI_def)
qed

lemma request_loop_returns:
  "\<forall>k \<in> set ks. \<forall>e. outcome (server k) = Raises e \<longrightarrow> is_Exception e \<Longrightarrow>
   \<exists>result self'. request_loop server max_retries ks self = Inr (result, self')"
proof (induction ks arbitrary: self)
  case Nil
  show ?case by simp
next
  case (Cons k ks)
  then have here: "\<forall>e. outcome (server k) = Raises e \<longrightarrow> is_Exception e"
    and rest: "\<forall>k \<in> set ks. \<forall>e. outcome (server k) = Raises e \<longrightarrow> is_Exception e"
    by simp_all
  note IH = Cons.IH [OF rest]
  show ?case
  proof (cases "outcome (server k)")
    case (Raises e)
    with here have "is_Exception e" by simp
    with Raises show ?thesis
      using IH by (simp add: attempt_body_def Let_def)
  next
    case (Response status body)
    then show ?thesis
      using IH by (cases body) (simp_all add: attempt_body_def Let_def)
  qed
qed

lemma request_loop_None:
  "\<forall>k \<in> set ks. \<forall>j. outcome (server k) \<noteq> Response 200 (Some j) \<Longrightarrow>
   request_loop server max_retries ks self = Inr (result, self') \<Longrightarrow> result = None"
proof (induction ks arbitrary: self)
  case Nil
  then show ?case by simp
next
  case (Cons k ks)
  then have here: "\<forall>j. outcome (server k) \<noteq> Response 200 (Some j)"
    and rest: "\<forall>k \<in> set ks. \<forall>j. outcome (server k) \<noteq> Response 200 (Some j)"
    by simp_all
  note IH = Cons.IH [OF rest]
  show ?case
  proof (cases "outcome (server k)")
    case (Raises e)
    with Cons.prems(2) show ?thesis
      using IH by (auto simp: attempt_body_def Let_def split: if_splits)
  next
    case (Response status body)
    with here have "status = 200 \<Longrightarrow> body = None" by (cases body) auto
    with Response Cons.prems(2) show ?thesis
      using IH by (auto simp: attempt_body_def Let_def split: if_splits)
  qed
qed

lemma attempts_made_rate_limit_wait:
  "attempts_made (trace (rate_limit_wait self)) = attempts_made (trace self)"
  by (simp add: rate_limit_wait_def Let_def attempts_made_append)

lemma session_rate_limit_wait: "session (rate_limit_wait self) = session self"
  by (simp add: rate_limit_wait_def Let_def)

lemma request_loop_retried:
  assumes "session self" "retried (outcome (server k))" "int k < max_retries - 1"
  shows "\<exists>self'. request_loop server max_retries (k # ks) self = request_loop server max_retries ks self'
           \<and> session self' \<and> attempts_made (trace self') = attempts_made (trace self) @ [k]"
proof (cases "outcome (server k)")
  case (Raises e)
  with assms(2) have "is_Exception e" by simp
  with Raises assms(1,3) show ?thesis
    by (simp add: attempt_body_def Let_def session_rate_limit_wait)
       (rule exI, intro conjI, rule refl,
        simp_all add: session_rate_limit_wait attempts_made_append attempts_made_rate_limit_wait)
next
  case (Response status body)
  with assms(2) consider "status = 429" | "status = 200" "body = None" by auto
  then show ?thesis
  proof cases
    case 1
    with Response assms(1,3) show ?thesis
      by (simp add: attempt_body_def Let_def session_rate_limit_wait)
         (rule exI, intro conjI, rule refl,
          simp_all add: session_rate_limit_wait attempts_made_append attempts_made_rate_limit_wait)
  next
    case 2
    with Response assms(1,3) show ?thesis
      by (simp add: attempt_body_def Let_def session_rate_limit_wait)
         (rule exI, intro conjI, rule refl,
          simp_all add: session_rate_limit_wait attempts_made_append attempts_made_rate_limit_wait)
  qed
qed

lemma request_loop_final_status:
  assumes "session self" "outcome (server k) = Response status body" "status \<noteq> 200" "status \<noteq> 429"
  shows "\<exists>self'. request_loop server max_retries (k # ks) self = Inr (None, self')
           \<and> attempts_made (trace self') = attempts_made (trace self) @ [k]"
  using assms
  by (simp add: attempt_body_def Let_def session_rate_limit_wait attempts_made_append
      attempts_made_rate_limit_wait)

lemma request_loop_prefix:
  assumes "outcome (server k) = Response status body" "status \<noteq> 200" "status \<noteq> 429"
    and "int k < max_retries"
  shows "session self \<Longrightarrow> i \<le> k \<Longrightarrow> \<forall>a. i \<le> a \<and> a < k \<longrightarrow> retried (outcome (server a)) \<Longrightarrow>
         \<exists>self'. request_loop server max_retries ([i ..< Suc k] @ ks) self = Inr (None, self')
           \<and> attempts_made (trace self') = attempts_made (trace self) @ [i ..< Suc k]"
proof (induction "k - i" arbitrary: i self)
  case 0
  then have "i = k" by simp
  then show ?case
    using request_loop_final_status [of self server k status body max_retries ks] 0(2) assms(1,2,3)
    by simp
next
  case (Suc d)
  then have lt: "i < k" and d: "d = k - Suc i" by simp_all
  have r: "retried (outcome (server i))" using Suc.prems(3) lt by simp
  have small: "int i < max_retries - 1" using lt assms(4) by simp
  have split: "[i ..< Suc k] = i # [Suc i ..< Suc k]" using lt by (simp add: upt_conv_Cons)
  obtain s1 where s1: "request_loop server max_retries (i # ([Suc i ..< Suc k] @ ks)) self =
        request_loop server max_retries ([Suc i ..< Suc k] @ ks) s1"
      and ses: "session s1" and tr: "attempts_made (trace s1) = attempts_made (trace self) @ [i]"
    using request_loop_retried [of self server i max_retries "[Suc i ..< Suc k] @ ks"]
      Suc.prems(1) r small by blast
  have rest: "\<forall>a. Suc i \<le> a \<and> a < k \<longrightarrow> retried (outcome (server a))"
    using Suc.prems(3) by simp
  obtain s2 where s2: "request_loop server max_retries ([Suc i ..< Suc k] @ ks) s1 = Inr (None, s2)"
      and tr2: "attempts_made (trace s2) = attempts_made (trace s1) @ [Suc i ..< Suc k]"
    using Suc.hyps(1) [OF d ses _ rest] lt by auto
  show ?case
    unfolding split using s1 s2 tr tr2 by simp
qed

lemma session_ensure_session: "session (ensure_session self)"
  by (simp add: ensure_session_def)

lemma trace_ensure_session: "trace (ensure_session self) = trace self"
  by (simp add: ensure_session_def)

lemma rate_limited_request_returns:
  "\<forall>k e. outcome (server k) = Raises e \<longrightarrow> is_Exception e \<Longrightarrow>
   \<exists>result self'. rate_limited_request server max_retries self = Inr (result, self')"
  unfolding rate_limited_request_def by (rule request_loop_returns) simp

lemma first_id_Exception: "first_id v = Inl e \<Longrightarrow> is_Exception e"
proof (induction v rule: first_id.induct)
  case (1 x xs)
  then show ?case by (cases x) (auto split: option.splits)
qed auto

lemma resolve_user_id_Exception: "resolve_user_id data = Inl e \<Longrightarrow> is_Exception e"
  by (cases data) (auto simp: Let_def split: if_splits sum.splits dest: first_id_Exception)

lemma profile_body_Exception:
  assumes "\<forall>e. outcome post = Raises e \<longrightarrow> is_Exception e"
    and "\<forall>uid k e. outcome (gets uid k) = Raises e \<longrightarrow> is_Exception e"
  shows "profile_body post gets self = Inl e \<Longrightarrow> is_Exception e"
proof -
  assume r: "profile_body post gets self = Inl e"
  have no: "rate_limited_request (gets uid) 3 s \<noteq> Inl e'" for uid s e'
    using rate_limited_request_returns [of "gets uid" 3 s] assms(2) by auto
  show ?thesis
  proof (cases "outcome post")
    case (Raises e')
    with r assms(1) show ?thesis
      by (auto simp: profile_body_def Let_def split: if_splits)
  next
    case (Response status body)
    with r no show ?thesis
      by (auto simp: profile_body_def Let_def
          split: if_splits option.splits sum.splits dest: resolve_user_id_Exception)
  qed
qed

lemma get_user_profile_returns:
  assumes "\<forall>e. outcome post = Raises e \<longrightarrow> is_Exception e"
    and "\<forall>uid k e. outcome (gets uid k) = Raises e \<longrightarrow> is_Exception e"
  shows "\<exists>result. get_user_profile post gets self = Inr result"
proof (cases "profile_body post gets (ensure_session self)")
  case (Inl e)
  then have "is_Exception e" by (rule profile_body_Exception [OF assms])
  with Inl show ?thesis by (simp add: get_user_profile_def)
next
  case (Inr r)
  then show ?thesis by (cases r) (simp add: get_user_profile_def)
qed

lemma get_user_profile_failure:
  assumes "\<forall>e. outcome post = Raises e \<longrightarrow> is_Exception e"
    and "\<forall>data. outcome post \<noteq> Response 200 (Some data)"
  shows "get_user_profile post gets self = Inr None"
proof (cases "outcome post")
  case (Raises e)
  with assms(1) have "is_Exception e" by simp
  with Raises show ?thesis
    by (simp add: get_user_profile_def profile_body_def Let_def session_ensure_session)
next
  case (Response status body)
  with assms(2) have "status = 200 \<Longrightarrow> body = None" by (cases body) auto
  with Response show ?thesis
    by (auto simp: get_user_profile_def profile_body_def Let_def session_ensure_session)
qed

text \<open>
  Claim C4.  For every server whose failures are responses or exceptions that are
  instances of \<^verbatim>\<open>Exception\<close> (the transport failures), every retry limit and every client
  state: the request returns, it does not raise; if no attempt is answered by a 200 with
  a decodable body, it returns null; and if attempt \<open>k\<close> is answered by a status other than
  200 and 429, after attempts that were all retried, it returns null and the attempts
  made are exactly 0 to \<open>k\<close>: there is no further retry, whatever the retry limit.  The
  lookup of a profile by name returns as well, and returns null when its POST is not
  answered by a 200 with a decodable body.
\<close>

theorem fetch_client_never_raises:
  "((\<forall>k e. outcome (server k) = Raises e \<longrightarrow> is_Exception e) \<longrightarrow>
      (\<exists>result self'. rate_limited_request server max_retries self = Inr (result, self')))
   \<and> ((\<forall>k e. outcome (server k) = Raises e \<longrightarrow> is_Exception e)
        \<and> (\<forall>k j. outcome (server k) \<noteq> Response 200 (Some j)) \<longrightarrow>
      (\<exists>self'. rate_limited_request server max_retries self = Inr (None, self')))
   \<and> (int k < max_retries \<and> (\<forall>a < k. retried (outcome (server a)))
        \<and> outcome (server k) = Response status body \<and> status \<noteq> 200 \<and> status \<noteq> 429 \<longrightarrow>
      (\<exists>self'. rate_limited_request server max_retries self = Inr (None, self')
         \<and> attempts_made (trace self') = attempts_made (trace self) @ [0 ..< Suc k]))
   \<and> ((\<forall>e. outcome post = Raises e \<longrightarrow> is_Exception e)
        \<and> (\<forall>uid k e. outcome (gets uid k) = Raises e \<longrightarrow> is_Exception e) \<longrightarrow>
      (\<exists>result. get_user_profile post gets self = Inr result))
   \<and> ((\<forall>e. outcome post = Raises e \<longrightarrow> is_Exception e)
        \<and> (\<forall>data. outcome post \<noteq> Response 200 (Some data)) \<longrightarrow>
      get_user_profile post gets self = Inr None)"
proof (intro conjI impI)
  assume "\<forall>k e. outcome (server k) = Raises e \<longrightarrow> is_Exception e"
  then show "\<exists>result self'. rate_limited_request server max_retries self = Inr (result, self')"
    by (rule rate_limited_request_returns)
next
  assume a: "(\<forall>k e. outcome (server k) = Raises e \<longrightarrow> is_Exception e)
        \<and> (\<forall>k j. outcome (server k) \<noteq> Response 200 (Some j))"
  then obtain result self' where r: "rate_limited_request server max_retries self = Inr (result, self')"
    using rate_limited_request_returns [of server max_retries self] by blast
  have "result = None"
    using request_loop_None [of "[0 ..< nat max_retries]" server max_retries "ensure_session self" result self']
      a r by (simp add: rate_limited_request_def)
  with r show "\<exists>self'. rate_limited_request server max_retries self = Inr (None, self')" by blast
next
  assume a: "int k < max_retries \<and> (\<forall>a < k. retried (outcome (server a)))
        \<and> outcome (server k) = Response status body \<and> status \<noteq> 200 \<and> status \<noteq> 429"
  then have "int k < max_retries" by blast
  then have k: "Suc k \<le> nat max_retries" by linarith
  then have split: "[0 ..< nat max_retries] = [0 ..< Suc k] @ [Suc k ..< nat max_retries]"
    by (metis le0 upt_add_eq_append le_add_diff_inverse)
  have "\<exists>self'. request_loop server max_retries ([0 ..< Suc k] @ [Suc k ..< nat max_retries])
            (ensure_session self) = Inr (None, self')
          \<and> attempts_made (trace self') = attempts_made (trace (ensure_session self)) @ [0 ..< Suc k]"
    using request_loop_prefix [of server k status body max_retries "ensure_session self" 0
        "[Suc k ..< nat max_retries]"] a
    by (simp add: session_ensure_session)
  then show "\<exists>self'. rate_limited_request server max_retries self = Inr (None, self')
         \<and> attempts_made (trace self') = attempts_made (trace self) @ [0 ..< Suc k]"
    unfolding rate_limited_request_def split by (simp add: trace_ensure_session)
next
  assume "(\<forall>e. outcome post = Raises e \<longrightarrow> is_Exception e)
        \<and> (\<forall>uid k e. outcome (gets uid k) = Raises e \<longrightarrow> is_Exception e)"
  then show "\<exists>result. get_user_profile post gets self = Inr result"
    using get_user_profile_returns [of post gets self] by blast
next
  assume "(\<forall>e. outcome post = Raises e \<longrightarrow> is_Exception e)
        \<and> (\<forall>data. outcome post \<noteq> Response 200 (Some data))"
  then show "get_user_profile post gets self = Inr None"
    using get_user_profile_failure [of post gets self] by blast
qed

theorem fetch_client_never_raises_witness:
  "is_Exception ClientError
   \<and> retried (outcome (flaky_server 0)) \<and> retried (outcome (flaky_server 1))
   \<and> outcome (flaky_server 2) = Response 503 None
   \<and> (\<exists>self'. rate_limited_request flaky_server 5 fresh_client = Inr (None, self')
         \<and> attempts_made (trace self') = [0, 1, 2])
   \<and> get_user_profile not_found_post (\<lambda>uid. flaky_server) fresh_client = Inr None"
proof -
  have exc: "\<forall>k e. outcome (flaky_server k) = Raises e \<longrightarrow> is_Exception e"
    by (simp add: flaky_server_def)
  have r0: "retried (outcome (flaky_server 0))" and r1: "retried (outcome (flaky_server 1))"
    by (simp_all add: flaky_server_def)
  have pre: "\<forall>a < 2. retried (outcome (flaky_server a))"
  proof (intro allI impI)
    fix a :: nat assume "a < 2"
    then have "a = 0 \<or> a = 1" by arith
    then show "retried (outcome (flaky_server a))" using r0 r1 by auto
  qed
  have o2: "outcome (flaky_server 2) = Response 503 None"
    by (simp add: flaky_server_def)
  have post: "\<forall>e. outcome not_found_post = Raises e \<longrightarrow> is_Exception e"
    "\<forall>data. outcome not_found_post \<noteq> Response 200 (Some data)"
    by (simp_all add: not_found_post_def)
  have tr: "attempts_made (trace fresh_client) = []"
    by (simp add: fresh_client_def RobloxAPI_def)
  have up: "[0 ..< Suc 2] = [0, 1, 2]"
    by (simp add: upt_rec)
  note t = fetch_client_never_raises [where server = flaky_server and k = 2 and max_retries = 5
      and status = 503 and body = None and self = fresh_client and post = not_found_post
      and gets = "\<lambda>uid. flaky_server"]
  from t pre o2 have "\<exists>self'. rate_limited_request flaky_server 5 fresh_client = Inr (None, self')
         \<and> attempts_made (trace self') = attempts_made (trace fresh_client) @ [0 ..< Suc 2]"
    by simp
  then have g: "\<exists>self'. rate_limited_request flaky_server 5 fresh_client = Inr (None, self')
         \<and> attempts_made (trace self') = [0, 1, 2]"
    unfolding tr up by simp
  from t post have p: "get_user_profile not_found_post (\<lambda>uid. flaky_server) fresh_client = Inr None"
    by blast
  show ?thesis using r0 r1 o2 g p by simp
qed

section \<open>The configuration and the checks\<close>

text \<open>
  Claim C9.  The claim is that an overridden analysis setting is used by the check it
  belongs to.  The analyzer is built from literals whatever the configuration holds, and
  no check reads the configuration.  With every setting overridden (badge-count
  threshold 10, age threshold 30 days, token list \<open>zzz\<close>, watched badge id 7, thresholds 10
  and 20): a list of 20 badges is still flagged although 20 is not below 10; an account
  60 days old is still flagged although it is older than 30 days; a user named
  \<open>zzz_user\<close> is not matched and one named \<open>xyris\<close> still is; a badge of id 7 is not
  matched; and a percentage of 25 still gives Low although it is above both configured
  thresholds.
\<close>

theorem configuration_not_consumed:
  "ThreatAnalyzer overridden_config = ThreatAnalyzer default_config
   \<and> check_badge_count (replicate 20 badge) = True
   \<and> \<not> int (length (replicate 20 badge)) < MIN_BADGE_COUNT overridden_config
   \<and> check_account_age lib now (PDatetime \<lparr>wall = now - timedelta_days 60, tzinfo = None\<rparr>) = True
   \<and> \<not> now - timedelta_days 60 > now - timedelta_days (ACCOUNT_AGE_THRESHOLD_DAYS overridden_config)
   \<and> check_suspicious_names (ThreatAnalyzer overridden_config) [named ''zzz_user''] = Inr []
   \<and> check_suspicious_names (ThreatAnalyzer overridden_config) [named ''xyris''] =
       Inr [[''name'' \<mapsto> PStr ''xyris'', ''matched_pattern'' \<mapsto> PStr ''XYRIS'']]
   \<and> 7 \<in> set (SUSPICIOUS_BADGE_IDS overridden_config)
   \<and> check_specific_badges (ThreatAnalyzer overridden_config) [badge_7] = []
   \<and> threat_percentage age_only_results = 25
   \<and> calculate_threat_level age_only_results = ''Low''
   \<and> \<not> threat_percentage age_only_results < of_int (MEDIUM_THRESHOLD overridden_config)"
proof (intro conjI)
  show "ThreatAnalyzer overridden_config = ThreatAnalyzer default_config"
    by (simp add: ThreatAnalyzer_def)
  show "check_badge_count (replicate 20 badge) = True"
    by (simp add: check_badge_count_def)
  show "\<not> int (length (replicate 20 badge)) < MIN_BADGE_COUNT overridden_config"
    by (simp add: overridden_config_def)
  show "check_account_age lib now (PDatetime \<lparr>wall = now - timedelta_days 60, tzinfo = None\<rparr>) = True"
    by (simp add: check_account_age_def parse_date_def timedelta_days_def)
  show "\<not> now - timedelta_days 60 > now - timedelta_days (ACCOUNT_AGE_THRESHOLD_DAYS overridden_config)"
    by (simp add: overridden_config_def timedelta_days_def)
  show "check_suspicious_names (ThreatAnalyzer overridden_config) [named ''zzz_user''] = Inr []"
    by (simp add: check_suspicious_names_def tokens_simp named_def dict_get_default_def
        lower_def lower_char_def ascii_uppercase_def ascii_lowercase_def sublist_code(3))
  show "check_suspicious_names (ThreatAnalyzer overridden_config) [named ''xyris''] =
       Inr [[''name'' \<mapsto> PStr ''xyris'', ''matched_pattern'' \<mapsto> PStr ''XYRIS'']]"
    by (simp add: check_suspicious_names_def tokens_simp named_def dict_get_default_def
        lower_def lower_char_def upper_def upper_char_def ascii_uppercase_def ascii_lowercase_def
        sublist_code(3))
  show "7 \<in> set (SUSPICIOUS_BADGE_IDS overridden_config)"
    by (simp add: overridden_config_def)
  show "check_specific_badges (ThreatAnalyzer overridden_config) [badge_7] = []"
    by (simp add: check_specific_badges_def ThreatAnalyzer_def badge_7_def dict_get_def)
  show "threat_percentage age_only_results = 25"
    by (simp add: threat_percentage_formula age_only_results_def all_zero_results_def)
  show "calculate_threat_level age_only_results = ''Low''"
    by (simp add: calculate_threat_level_def threat_percentage_formula age_only_results_def
        all_zero_results_def)
  show "\<not> threat_percentage age_only_results < of_int (MEDIUM_THRESHOLD overridden_config)"
    by (simp add: threat_percentage_formula age_only_results_def all_zero_results_def
        overridden_config_def)
qed

end
